theory Spec2Isabelle
  imports Main "HOL-Library.Word"
begin

section \<open>Data of the exporter\<close>

text \<open>
  The program is \<^verbatim>\<open>main.go\<close> of the air-quality exporter: \<^verbatim>\<open>sensorMakePassive\<close> runs the
  driver call \<^verbatim>\<open>sensor.MakePassive()\<close> in a goroutine and races its answer against a
  timer, and \<^verbatim>\<open>recordMetrics\<close> opens the sensor, configures it and then reads
  measurements for ever, storing each one in the gauge vector \<^verbatim>\<open>airqualityPM\<close>.

  The sensor driver, the clock and the Go scheduler are outside the program. They are the
  environment of the model: what each driver call answers and how long it takes are
  parameters, and every theorem holds for all of them.

  Time is counted in nanoseconds, the unit of Go's \<^verbatim>\<open>time.Duration\<close>. The model keeps
  durations as unbounded naturals; \<^verbatim>\<open>time.Duration\<close> is a signed 64-bit number, so the two
  agree as long as \<^verbatim>\<open>time.Second * time.Duration(retry)\<close> stays below \<open>2^63\<close>, that is for
  \<open>retry < 9223372037\<close>. Timers are taken to fire exactly when they are due. Calls to
  \<^verbatim>\<open>slog\<close> write a line to standard output and touch no other state; they are left out.
\<close>

definition second :: nat where
  "second = 1000000000"

text \<open>
  The constants of \<^verbatim>\<open>main.go\<close>: no retry, ten seconds for each attempt. Both are
  Go \<^verbatim>\<open>int\<close>s that are not negative; the counter \<^verbatim>\<open>retry\<close> of the loop starts at 0 and
  only grows.
\<close>

definition retries :: nat where
  "retries = 0"

definition apiCallTimeout :: nat where
  "apiCallTimeout = 10"

text \<open>
  One call of \<^verbatim>\<open>sensor.MakePassive()\<close>: it never returns, or it returns after some time
  with \<^verbatim>\<open>nil\<close> (\<open>None\<close>) or with an error of the driver.
\<close>

datatype 'e call = Never | Returns nat "'e option"

text \<open>
  The two errors \<^verbatim>\<open>sensorMakePassive\<close> builds with \<^verbatim>\<open>fmt.Errorf\<close>: the driver's error
  wrapped, and the timeout with the number of the attempt.
\<close>

datatype 'e error = CannotSwitchPassive 'e | ResponseTimeout nat

text \<open>A measurement of the driver, \<^verbatim>\<open>sds011.Point\<close>, with its two \<^verbatim>\<open>float64\<close> fields.
  The program only moves these values, so their type is left open.\<close>

record 'v point =
  PM25 :: 'v
  PM10 :: 'v

text \<open>
  What the program does that the outside can see, in the order it does it: it sleeps,
  starts a goroutine that calls \<^verbatim>\<open>MakePassive\<close>, receives a value on the channel
  \<^verbatim>\<open>response\<close> (with the attempt whose goroutine sent it), sees the timer of an attempt
  fire, calls the driver (each call with what it answered), sets a gauge, exits.
\<close>

datatype ('e, 'v) event =
    ESleep nat
  | EGo nat
  | ERecv nat "'e error option"
  | ETimeout nat
  | ENew string "'e option"
  | ECycle "'e + 8 word"
  | ESetCycle "8 word" "'e option"
  | EMakeActive "'e option"
  | EGet "'e + 'v point"
  | EGaugeSet string 'v
  | EExit nat

section \<open>sensorMakePassive\<close>

text \<open>
  The channel \<^verbatim>\<open>response\<close> is made once, before the loop, and has no buffer. A goroutine
  whose call has returned blocks in its send until the loop receives. The model keeps the
  goroutines that were started and whose call returns at some time as senders: the time at
  which the send is ready, the attempt that started the goroutine, and the value it sends
  (\<^verbatim>\<open>nil\<close>, or the wrapped error). A goroutine whose call never returns never sends.
\<close>

type_synonym 'e sender = "nat \<times> nat \<times> 'e error option"

record ('e, 'v) exec =
  now :: nat
  sendq :: "'e sender list"
  responseError :: "'e error option"
  trace :: "('e, 'v) event list"

text \<open>The sender that is ready first; among senders ready at the same time, the one
  started first (the runtime serves blocked senders in the order they arrived).\<close>

fun earliest :: "'e sender list \<Rightarrow> 'e sender option" where
  "earliest [] = None"
| "earliest (s # ss) =
     (case earliest ss of
        None \<Rightarrow> Some s
      | Some s' \<Rightarrow> if fst s' < fst s then Some s' else Some s)"

text \<open>\<^verbatim>\<open>time.Sleep(time.Second * time.Duration(retry))\<close>, only when \<^verbatim>\<open>retry > 0\<close>.\<close>

definition sleep_before :: "nat \<Rightarrow> ('e, 'v) exec \<Rightarrow> ('e, 'v) exec" where
  "sleep_before retry st =
     (if retry > 0
      then st\<lparr>now := now st + second * retry,
              trace := trace st @ [ESleep (second * retry)]\<rparr>
      else st)"

text \<open>
  The \<^verbatim>\<open>go func() { ... }()\<close> of an attempt. The goroutine calls \<^verbatim>\<open>MakePassive\<close> and
  sends \<^verbatim>\<open>nil\<close> or the wrapped error when the call has returned.
\<close>

definition go_func :: "(nat \<Rightarrow> 'e call) \<Rightarrow> nat \<Rightarrow> ('e, 'v) exec \<Rightarrow> ('e, 'v) exec" where
  "go_func makePassive retry st =
     (let st' = st\<lparr>trace := trace st @ [EGo retry]\<rparr>
      in case makePassive retry of
           Never \<Rightarrow> st'
         | Returns d r \<Rightarrow>
             st'\<lparr>sendq := sendq st' @ [(now st' + d, retry, map_option CannotSwitchPassive r)]\<rparr>)"

text \<open>
  The \<^verbatim>\<open>select\<close>: the receive on \<^verbatim>\<open>response\<close> against \<^verbatim>\<open>time.After\<close>. A sender that
  was ready before the \<^verbatim>\<open>select\<close> started is received at once. When the first sender is
  ready at the very instant the timer fires, Go may take either case; \<open>dead_heat\<close> says for
  each attempt whether the receive wins.
\<close>

datatype 'e selected = Received "'e sender" | TimedOut

definition select_response ::
  "nat \<Rightarrow> (nat \<Rightarrow> bool) \<Rightarrow> nat \<Rightarrow> ('e, 'v) exec \<Rightarrow> 'e selected" where
  "select_response timeout dead_heat retry st =
     (case earliest (sendq st) of
        None \<Rightarrow> TimedOut
      | Some s \<Rightarrow>
          (let arrival = max (fst s) (now st); deadline = now st + second * timeout
           in if arrival < deadline \<or> (arrival = deadline \<and> dead_heat retry)
              then Received s else TimedOut))"

text \<open>
  The loop \<^verbatim>\<open>for retry := 0; retry <= retries; retry++\<close>. A received \<^verbatim>\<open>nil\<close> leaves the
  loop; a received error and a timeout are stored in \<^verbatim>\<open>responseError\<close> and the loop goes
  on with the next \<^verbatim>\<open>retry\<close>.
\<close>

function Loop ::
  "nat \<Rightarrow> nat \<Rightarrow> (nat \<Rightarrow> bool) \<Rightarrow> (nat \<Rightarrow> 'e call) \<Rightarrow> nat \<Rightarrow> ('e, 'v) exec \<Rightarrow> ('e, 'v) exec" where
  "Loop maxRetries timeout dead_heat makePassive retry st =
     (if retry \<le> maxRetries then
        (let st1 = sleep_before retry st;
             st2 = go_func makePassive retry st1
         in case select_response timeout dead_heat retry st2 of
              Received s \<Rightarrow>
                (let st3 = st2\<lparr>now := max (fst s) (now st2),
                               sendq := remove1 s (sendq st2),
                               trace := trace st2 @ [ERecv (fst (snd s)) (snd (snd s))]\<rparr>
                 in case snd (snd s) of
                      None \<Rightarrow> st3\<lparr>responseError := None\<rparr>
                    | Some err \<Rightarrow>
                        Loop maxRetries timeout dead_heat makePassive (retry + 1)
                          (st3\<lparr>responseError := Some err\<rparr>))
            | TimedOut \<Rightarrow>
                Loop maxRetries timeout dead_heat makePassive (retry + 1)
                  (st2\<lparr>now := now st2 + second * timeout,
                       trace := trace st2 @ [ETimeout retry],
                       responseError := Some (ResponseTimeout retry)\<rparr>))
      else st)"
  by pat_completeness auto
termination
  by (relation "measure (\<lambda>(maxRetries, timeout, dead_heat, makePassive, retry, st).
        maxRetries + 1 - retry)") auto

text \<open>The state in which \<^verbatim>\<open>sensorMakePassive\<close> starts, at time \<open>t\<close>: the channel has no
  sender and \<^verbatim>\<open>responseError\<close> is \<^verbatim>\<open>nil\<close>.\<close>

definition exec_init :: "nat \<Rightarrow> ('e, 'v) exec" where
  "exec_init t = \<lparr>now = t, sendq = [], responseError = None, trace = []\<rparr>"

text \<open>
  \<^verbatim>\<open>sensorMakePassive\<close> with the number of retries and the timeout as parameters, and the
  function of the program, with its constants. The value returned is \<^verbatim>\<open>responseError\<close>
  of the final state.
\<close>

definition sensorMakePassive_with ::
  "nat \<Rightarrow> nat \<Rightarrow> (nat \<Rightarrow> bool) \<Rightarrow> (nat \<Rightarrow> 'e call) \<Rightarrow> ('e, 'v) exec" where
  "sensorMakePassive_with maxRetries timeout dead_heat makePassive =
     Loop maxRetries timeout dead_heat makePassive 0 (exec_init 0)"

definition sensorMakePassive ::
  "(nat \<Rightarrow> bool) \<Rightarrow> (nat \<Rightarrow> 'e call) \<Rightarrow> ('e, 'v) exec" where
  "sensorMakePassive dead_heat makePassive =
     sensorMakePassive_with retries apiCallTimeout dead_heat makePassive"

section \<open>recordMetrics\<close>

text \<open>The flags \<^verbatim>\<open>recordMetrics\<close> reads. \<^verbatim>\<open>cycle\<close> is a Go \<^verbatim>\<open>int\<close>.\<close>

record config =
  portPath :: string
  cycle :: int
  forceSetCycle :: bool

text \<open>
  The sensor as \<^verbatim>\<open>recordMetrics\<close> meets it: what \<^verbatim>\<open>sds011.New\<close> answers for a path, how
  the calls of \<^verbatim>\<open>MakePassive\<close> behave, how a dead heat in the \<^verbatim>\<open>select\<close> ends, and what
  \<^verbatim>\<open>Cycle\<close>, \<^verbatim>\<open>SetCycle\<close>, \<^verbatim>\<open>MakeActive\<close> and the successive calls of \<^verbatim>\<open>Get\<close> answer.
  \<^verbatim>\<open>Cycle\<close>, \<^verbatim>\<open>SetCycle\<close> and \<^verbatim>\<open>MakeActive\<close> are called at most once in a run.
\<close>

record ('e, 'v) driver =
  new_result :: "string \<Rightarrow> 'e option"
  makePassive :: "nat \<Rightarrow> 'e call"
  dead_heat :: "nat \<Rightarrow> bool"
  cycle_result :: "'e + 8 word"
  setCycle_result :: "8 word \<Rightarrow> 'e option"
  makeActive_result :: "'e option"
  get_result :: "nat \<Rightarrow> 'e + 'v point"

text \<open>
  The process: what it has done so far, the gauge vector \<^verbatim>\<open>airqualityPM\<close> (a value for
  each label that was set), and the exit status once \<^verbatim>\<open>os.Exit\<close> was called.
\<close>

record ('e, 'v) proc =
  events :: "('e, 'v) event list"
  airqualityPM :: "string \<rightharpoonup> 'v"
  exited :: "nat option"

definition proc_init :: "('e, 'v) proc" where
  "proc_init = \<lparr>events = [], airqualityPM = Map.empty, exited = None\<rparr>"

definition os_Exit :: "nat \<Rightarrow> ('e, 'v) proc \<Rightarrow> ('e, 'v) proc" where
  "os_Exit code p = p\<lparr>events := events p @ [EExit code], exited := Some code\<rparr>"

text \<open>
  The conversion \<^verbatim>\<open>uint8(*cycle)\<close> keeps the low eight bits of the \<^verbatim>\<open>int\<close>, of a
  negative one too. Only these bits reach the program, so \<open>cycle\<close> may be any integer
  in the model.
\<close>

definition uint8 :: "int \<Rightarrow> 8 word" where
  "uint8 c = word_of_int c"

text \<open>Lines 84 to 88: \<^verbatim>\<open>sds011.New(*portPath)\<close>, and exit 1 on an error.\<close>

definition open_sensor :: "config \<Rightarrow> ('e, 'v) driver \<Rightarrow> ('e, 'v) proc \<Rightarrow> ('e, 'v) proc" where
  "open_sensor cfg drv p =
     (let err = new_result drv (portPath cfg);
          p1 = p\<lparr>events := events p @ [ENew (portPath cfg) err]\<rparr>
      in case err of Some e \<Rightarrow> os_Exit 1 p1 | None \<Rightarrow> p1)"

text \<open>Lines 91 to 94: \<^verbatim>\<open>sensorMakePassive(sensor)\<close>, and exit 1 on an error.\<close>

abbreviation passive_run :: "('e, 'v) driver \<Rightarrow> ('e, 'v) exec" where
  "passive_run drv \<equiv> sensorMakePassive (dead_heat drv) (makePassive drv)"

definition make_passive :: "('e, 'v) driver \<Rightarrow> ('e, 'v) proc \<Rightarrow> ('e, 'v) proc" where
  "make_passive drv p =
     (let x = passive_run drv;
          p1 = p\<lparr>events := events p @ trace x\<rparr>
      in case responseError x of Some err \<Rightarrow> os_Exit 1 p1 | None \<Rightarrow> p1)"

text \<open>
  Lines 96 to 115. With \<^verbatim>\<open>forceSetCycle\<close> the cycle is set. Without it the cycle of the
  device is read, compared with \<^verbatim>\<open>uint8(*cycle)\<close>, and set when the two differ. An
  error of \<^verbatim>\<open>Cycle\<close> or \<^verbatim>\<open>SetCycle\<close> exits with status 1.
\<close>

definition set_cycle :: "config \<Rightarrow> ('e, 'v) driver \<Rightarrow> ('e, 'v) proc \<Rightarrow> ('e, 'v) proc" where
  "set_cycle cfg drv p =
     (let err = setCycle_result drv (uint8 (cycle cfg));
          p1 = p\<lparr>events := events p @ [ESetCycle (uint8 (cycle cfg)) err]\<rparr>
      in case err of Some e \<Rightarrow> os_Exit 1 p1 | None \<Rightarrow> p1)"

definition configure_cycle ::
  "config \<Rightarrow> ('e, 'v) driver \<Rightarrow> ('e, 'v) proc \<Rightarrow> ('e, 'v) proc" where
  "configure_cycle cfg drv p =
     (if forceSetCycle cfg then set_cycle cfg drv p
      else
        (let p1 = p\<lparr>events := events p @ [ECycle (cycle_result drv)]\<rparr>
         in case cycle_result drv of
              Inl e \<Rightarrow> os_Exit 1 p1
            | Inr currentCycle \<Rightarrow>
                if currentCycle \<noteq> uint8 (cycle cfg) then set_cycle cfg drv p1 else p1))"

text \<open>Lines 117 to 121: \<^verbatim>\<open>sensor.MakeActive()\<close>, and exit 1 on an error.\<close>

definition make_active :: "('e, 'v) driver \<Rightarrow> ('e, 'v) proc \<Rightarrow> ('e, 'v) proc" where
  "make_active drv p =
     (let p1 = p\<lparr>events := events p @ [EMakeActive (makeActive_result drv)]\<rparr>
      in case makeActive_result drv of Some e \<Rightarrow> os_Exit 1 p1 | None \<Rightarrow> p1)"

text \<open>
  Lines 123 to 133, one turn of the loop \<^verbatim>\<open>for { ... }\<close>: the call of \<^verbatim>\<open>Get\<close> number
  \<open>i\<close>. On an error the turn ends (\<^verbatim>\<open>continue\<close>); otherwise the two gauges are set.
\<close>

definition iteration :: "('e, 'v) driver \<Rightarrow> nat \<Rightarrow> ('e, 'v) proc \<Rightarrow> ('e, 'v) proc" where
  "iteration drv i p =
     (case get_result drv i of
        Inl err \<Rightarrow> p\<lparr>events := events p @ [EGet (Inl err)]\<rparr>
      | Inr point \<Rightarrow>
          p\<lparr>events := events p @
                [EGet (Inr point), EGaugeSet ''pm2.5'' (PM25 point),
                 EGaugeSet ''pm10'' (PM10 point)],
            airqualityPM := (airqualityPM p)(''pm2.5'' \<mapsto> PM25 point, ''pm10'' \<mapsto> PM10 point)\<rparr>)"

text \<open>
  The loop has no condition, no \<^verbatim>\<open>break\<close> and no \<^verbatim>\<open>return\<close>: it never ends.
  \<open>readLoop drv n p\<close> is the process after the first \<open>n\<close> turns.
\<close>

primrec readLoop :: "('e, 'v) driver \<Rightarrow> nat \<Rightarrow> ('e, 'v) proc \<Rightarrow> ('e, 'v) proc" where
  "readLoop drv 0 p = p"
| "readLoop drv (Suc n) p = iteration drv n (readLoop drv n p)"

text \<open>A step runs only while the process has not exited.\<close>

definition and_then ::
  "(('e, 'v) proc \<Rightarrow> ('e, 'v) proc) \<Rightarrow> (('e, 'v) proc \<Rightarrow> ('e, 'v) proc) \<Rightarrow>
   ('e, 'v) proc \<Rightarrow> ('e, 'v) proc" where
  "and_then f g p = (let p' = f p in if exited p' = None then g p' else p')"

text \<open>
  \<^verbatim>\<open>recordMetrics\<close>, followed up to the end of turn \<open>n\<close> of its loop. The deferred
  \<^verbatim>\<open>sensor.Close()\<close> never runs: the function only ends in \<^verbatim>\<open>os.Exit\<close>.
\<close>

definition recordMetrics :: "config \<Rightarrow> ('e, 'v) driver \<Rightarrow> nat \<Rightarrow> ('e, 'v) proc" where
  "recordMetrics cfg drv n =
     and_then (open_sensor cfg drv)
       (and_then (make_passive drv)
          (and_then (configure_cycle cfg drv)
             (and_then (make_active drv) (readLoop drv n)))) proc_init"

text \<open>The arguments of the calls of \<^verbatim>\<open>SetCycle\<close> in a list of events, in order.\<close>

fun setCycle_calls :: "('e, 'v) event list \<Rightarrow> 8 word list" where
  "setCycle_calls [] = []"
| "setCycle_calls (ESetCycle w r # es) = w # setCycle_calls es"
| "setCycle_calls (e # es) = setCycle_calls es"

text \<open>The events of \<^verbatim>\<open>sensorMakePassive\<close> that are a sleep or the start of an attempt.\<close>

fun sleep_or_go :: "('e, 'v) event \<Rightarrow> bool" where
  "sleep_or_go (ESleep d) = True"
| "sleep_or_go (EGo i) = True"
| "sleep_or_go e = False"



fun attempts_started :: "('e, 'v) event list \<Rightarrow> nat list" where
  "attempts_started [] = []"
| "attempts_started (EGo i # es) = i # attempts_started es"
| "attempts_started (e # es) = attempts_started es"

text \<open>How attempt \<open>i\<close> begins: a sleep of \<open>i\<close> seconds unless \<open>i = 0\<close>, then the goroutine.\<close>

definition attempt_start :: "nat \<Rightarrow> ('e, 'v) event list" where
  "attempt_start i = (if 0 < i then [ESleep (second * i)] else []) @ [EGo i]"

text \<open>
  The stage of \<^verbatim>\<open>recordMetrics\<close> an event belongs to: opening the sensor, passive mode,
  the cycle, active mode, the read loop, the exit.
\<close>

fun phase :: "('e, 'v) event \<Rightarrow> nat" where
  "phase (ENew path r) = 0"
| "phase (ESleep d) = 1"
| "phase (EGo i) = 1"
| "phase (ERecv j v) = 1"
| "phase (ETimeout i) = 1"
| "phase (ECycle r) = 2"
| "phase (ESetCycle w r) = 2"
| "phase (EMakeActive r) = 3"
| "phase (EGet r) = 4"
| "phase (EGaugeSet l v) = 4"
| "phase (EExit code) = 5"

text \<open>A scheduler that gives every dead heat in the \<^verbatim>\<open>select\<close> to the timer.\<close>

definition timer_wins :: "nat \<Rightarrow> bool" where
  "timer_wins i = False"

text \<open>A call of the driver during the start that answered with an error.\<close>

fun failed_call :: "('e, 'v) event \<Rightarrow> bool" where
  "failed_call (ENew path (Some e)) = True"
| "failed_call (ECycle (Inl e)) = True"
| "failed_call (ESetCycle w (Some e)) = True"
| "failed_call (EMakeActive (Some e)) = True"
| "failed_call e = False"

text \<open>
  A sensor that works: it opens, goes passive after 3 seconds, reports cycle 5, accepts a
  new cycle, goes active, and then measures; its second measurement fails. And the flags
  of the program with a cycle and \<^verbatim>\<open>force-set-cycle\<close> chosen.
\<close>

definition usb_sensor :: "(unit, int) driver" where
  "usb_sensor =
     \<lparr>new_result = (\<lambda>path. None),
      makePassive = (\<lambda>i. Returns (3 * second) None),
      dead_heat = timer_wins,
      cycle_result = Inr 5,
      setCycle_result = (\<lambda>w. None),
      makeActive_result = None,
      get_result = (\<lambda>i. if i = 1 then Inl () else Inr \<lparr>PM25 = 12 + int i, PM10 = 20\<rparr>)\<rparr>"

text \<open>The same sensor, except that \<^verbatim>\<open>MakePassive\<close> never returns.\<close>

definition mute_sensor :: "(unit, int) driver" where
  "mute_sensor = usb_sensor\<lparr>makePassive := \<lambda>i. Never\<rparr>"

definition flags :: "int \<Rightarrow> bool \<Rightarrow> config" where
  "flags c force = \<lparr>portPath = ''/dev/ttyUSB0'', cycle = c, forceSetCycle = force\<rparr>"

section \<open>One attempt after the other\<close>

declare Loop.simps [simp del]

lemma Loop_done:
  "\<not> retry \<le> maxRetries \<Longrightarrow> Loop maxRetries timeout dh mp retry st = st"
  by (subst Loop.simps) simp

lemma Loop_step:
  "retry \<le> maxRetries \<Longrightarrow>
   Loop maxRetries timeout dh mp retry st =
     (let st2 = go_func mp retry (sleep_before retry st)
      in case select_response timeout dh retry st2 of
           Received s \<Rightarrow>
             (let st3 = st2\<lparr>now := max (fst s) (now st2),
                            sendq := remove1 s (sendq st2),
                            trace := trace st2 @ [ERecv (fst (snd s)) (snd (snd s))]\<rparr>
              in case snd (snd s) of
                   None \<Rightarrow> st3\<lparr>responseError := None\<rparr>
                 | Some err \<Rightarrow>
                     Loop maxRetries timeout dh mp (retry + 1)
                       (st3\<lparr>responseError := Some err\<rparr>))
         | TimedOut \<Rightarrow>
             Loop maxRetries timeout dh mp (retry + 1)
               (st2\<lparr>now := now st2 + second * timeout,
                    trace := trace st2 @ [ETimeout retry],
                    responseError := Some (ResponseTimeout retry)\<rparr>))"
  by (subst Loop.simps) (simp add: Let_def)

lemma Loop_timeout:
  assumes "retry \<le> maxRetries"
    and "st2 = go_func mp retry (sleep_before retry st)"
    and "select_response timeout dh retry st2 = TimedOut"
  shows "Loop maxRetries timeout dh mp retry st =
         Loop maxRetries timeout dh mp (Suc retry)
           (st2\<lparr>now := now st2 + second * timeout,
                trace := trace st2 @ [ETimeout retry],
                responseError := Some (ResponseTimeout retry)\<rparr>)"
  using assms by (subst Loop.simps) (simp add: Let_def)

lemma Loop_success:
  assumes "retry \<le> maxRetries"
    and "st2 = go_func mp retry (sleep_before retry st)"
    and "select_response timeout dh retry st2 = Received s"
    and "snd (snd s) = None"
  shows "Loop maxRetries timeout dh mp retry st =
         st2\<lparr>now := max (fst s) (now st2),
             sendq := remove1 s (sendq st2),
             trace := trace st2 @ [ERecv (fst (snd s)) None],
             responseError := None\<rparr>"
  using assms by (subst Loop.simps) (simp add: Let_def)

lemma Loop_error:
  assumes "retry \<le> maxRetries"
    and "st2 = go_func mp retry (sleep_before retry st)"
    and "select_response timeout dh retry st2 = Received s"
    and "snd (snd s) = Some err"
  shows "Loop maxRetries timeout dh mp retry st =
         Loop maxRetries timeout dh mp (Suc retry)
           (st2\<lparr>now := max (fst s) (now st2),
                sendq := remove1 s (sendq st2),
                trace := trace st2 @ [ERecv (fst (snd s)) (Some err)],
                responseError := Some err\<rparr>)"
  using assms by (subst Loop.simps) (simp add: Let_def)

lemma trace_go_sleep:
  "trace (go_func mp r (sleep_before r st)) = trace st @ attempt_start r"
  by (simp add: go_func_def sleep_before_def attempt_start_def Let_def split: call.splits)

lemma filter_attempt_start [simp]:
  "filter sleep_or_go (attempt_start r) = attempt_start r"
  by (simp add: attempt_start_def)

text \<open>
  C2. With \<^verbatim>\<open>retries = 0\<close>, the constant of the program, \<^verbatim>\<open>sensorMakePassive\<close> makes one
  attempt and no more: it does not sleep, it starts one goroutine and runs the \<^verbatim>\<open>select\<close>
  once. When the call returns before the timeout (or wins a dead heat) the function returns
  at that time with what the call answered, \<^verbatim>\<open>nil\<close> or the wrapped error; otherwise it
  returns when the timer fires, with the timeout error of attempt 0.
\<close>

theorem single_attempt:
  "sensorMakePassive_with retries timeout dh mp =
     (case mp 0 of
        Never \<Rightarrow>
          \<lparr>now = second * timeout, sendq = [], responseError = Some (ResponseTimeout 0),
           trace = [EGo 0, ETimeout 0]\<rparr>
      | Returns d r \<Rightarrow>
          if d < second * timeout \<or> (d = second * timeout \<and> dh 0)
          then \<lparr>now = d, sendq = [], responseError = map_option CannotSwitchPassive r,
                trace = [EGo 0, ERecv 0 (map_option CannotSwitchPassive r)]\<rparr>
          else \<lparr>now = second * timeout, sendq = [(d, 0, map_option CannotSwitchPassive r)],
                responseError = Some (ResponseTimeout 0), trace = [EGo 0, ETimeout 0]\<rparr>)"
  by (auto simp: sensorMakePassive_with_def retries_def Loop_step Loop_done exec_init_def
      sleep_before_def go_func_def select_response_def Let_def
      split: call.splits option.splits)

theorem single_attempt_witness:
  "(sensorMakePassive_with retries 10 (\<lambda>i. False) (\<lambda>i. Returns (3 * second) (Some ()))
      :: (unit, unit) exec) =
   \<lparr>now = 3 * second, sendq = [], responseError = Some (CannotSwitchPassive ()),
    trace = [EGo 0, ERecv 0 (Some (CannotSwitchPassive ()))]\<rparr>"
  using single_attempt [of 10 "\<lambda>i. False" "\<lambda>i. Returns (3 * second) (Some ())"]
  by (simp add: second_def)

subsection \<open>When every attempt fails\<close>












subsection \<open>A call that answers after its timeout\<close>

lemma shipped_run:
  "sensorMakePassive dh mp =
     (case mp 0 of
        Never \<Rightarrow>
          \<lparr>now = second * apiCallTimeout, sendq = [], responseError = Some (ResponseTimeout 0),
           trace = [EGo 0, ETimeout 0]\<rparr>
      | Returns d r \<Rightarrow>
          if d < second * apiCallTimeout \<or> (d = second * apiCallTimeout \<and> dh 0)
          then \<lparr>now = d, sendq = [], responseError = map_option CannotSwitchPassive r,
                trace = [EGo 0, ERecv 0 (map_option CannotSwitchPassive r)]\<rparr>
          else \<lparr>now = second * apiCallTimeout,
                sendq = [(d, 0, map_option CannotSwitchPassive r)],
                responseError = Some (ResponseTimeout 0), trace = [EGo 0, ETimeout 0]\<rparr>)"
  by (auto simp: sensorMakePassive_def sensorMakePassive_with_def retries_def Loop_step
      Loop_done exec_init_def sleep_before_def go_func_def select_response_def Let_def
      split: call.splits option.splits)

lemma late_answer_run:
  "(sensorMakePassive timer_wins (\<lambda>i. Returns (13 * second) None) :: (unit, unit) exec) =
   \<lparr>now = 10 * second, sendq = [(13 * second, 0, None)],
    responseError = Some (ResponseTimeout 0), trace = [EGo 0, ETimeout 0]\<rparr>"
  by (simp add: shipped_run apiCallTimeout_def second_def timer_wins_def)

text \<open>
  C1. In every run of \<^verbatim>\<open>sensorMakePassive\<close> in which the timer of an attempt fires before
  the call of that attempt has answered, the answer of the abandoned call is never
  consumed. Nothing is received on the channel in such a run; the attempt is attempt 0,
  the only one, so no later attempt exists that could record the answer; the timeout is
  the last thing that happens, at the end of the ten seconds, and the function returns the
  timeout error of attempt 0. The run and its result are those of a call that never
  answers at all, whatever the abandoned call reports and whenever it reports it.
\<close>

theorem abandoned_result_never_consumed:
  fixes x :: "('e, 'v) exec"
  assumes "x = sensorMakePassive dh mp"
    and "ETimeout i \<in> set (trace x)"
  shows "(\<forall>j v. ERecv j v \<notin> set (trace x)) \<and>
         attempts_started (trace x) = [0] \<and>
         trace x = [EGo 0, ETimeout 0] \<and>
         responseError x = Some (ResponseTimeout 0) \<and>
         now x = second * apiCallTimeout \<and>
         trace x = trace (sensorMakePassive dh (\<lambda>k. Never) :: ('e, 'v) exec) \<and>
         responseError x = responseError (sensorMakePassive dh (\<lambda>k. Never) :: ('e, 'v) exec)"
proof -
  have silent: "(sensorMakePassive dh (\<lambda>k. Never) :: ('e, 'v) exec) =
      \<lparr>now = second * apiCallTimeout, sendq = [], responseError = Some (ResponseTimeout 0),
       trace = [EGo 0, ETimeout 0]\<rparr>"
    by (simp add: shipped_run)
  show ?thesis
  proof (cases "mp 0")
    case Never
    then show ?thesis by (simp add: assms(1) shipped_run)
  next
    case (Returns d r)
    show ?thesis
    proof (cases "d < second * apiCallTimeout \<or> (d = second * apiCallTimeout \<and> dh 0)")
      case True
      with Returns assms(2) show ?thesis by (simp add: assms(1) shipped_run)
    next
      case False
      with Returns show ?thesis by (simp add: assms(1) shipped_run)
    qed
  qed
qed

theorem abandoned_result_never_consumed_witness:
  "ETimeout 0 \<in> set (trace (sensorMakePassive timer_wins (\<lambda>i. Returns (13 * second) None)
      :: (unit, unit) exec)) \<and>
   (\<forall>j v. ERecv j v \<notin> set (trace (sensorMakePassive timer_wins
      (\<lambda>i. Returns (13 * second) None) :: (unit, unit) exec))) \<and>
   responseError (sensorMakePassive timer_wins (\<lambda>i. Returns (13 * second) None)
      :: (unit, unit) exec) = Some (ResponseTimeout 0) \<and>
   responseError (sensorMakePassive timer_wins (\<lambda>i. Returns (13 * second) None)
      :: (unit, unit) exec) =
     responseError (sensorMakePassive timer_wins (\<lambda>k. Never) :: (unit, unit) exec)"
proof -
  have "ETimeout 0 \<in> set (trace (sensorMakePassive timer_wins
      (\<lambda>i. Returns (13 * second) None) :: (unit, unit) exec))"
    by (simp add: late_answer_run)
  from this abandoned_result_never_consumed [OF refl this]
  show ?thesis by auto
qed

section \<open>The start of recordMetrics and its loop\<close>

lemma setCycle_calls_append:
  "setCycle_calls (es @ fs) = setCycle_calls es @ setCycle_calls fs"
  by (induction es rule: setCycle_calls.induct) simp_all

lemma setCycle_calls_other:
  "\<forall>e\<in>set es. phase e \<noteq> 2 \<Longrightarrow> setCycle_calls es = []"
  by (induction es rule: setCycle_calls.induct) simp_all

lemma Loop_phase:
  "\<forall>e\<in>set (trace st). phase e = 1 \<Longrightarrow>
   \<forall>e\<in>set (trace (Loop N T dh mp r st)). phase e = 1"
proof (induction N T dh mp r st rule: Loop.induct)
  case (1 N T dh mp r st)
  show ?case
  proof (cases "r \<le> N")
    case False
    with "1.prems" show ?thesis by (simp add: Loop_done)
  next
    case True
    define st2 where "st2 = go_func mp r (sleep_before r st)"
    have tr2: "\<forall>e\<in>set (trace st2). phase e = 1"
      using "1.prems" by (auto simp: st2_def trace_go_sleep attempt_start_def)
    show ?thesis
    proof (cases "select_response T dh r st2")
      case TimedOut
      from "1.IH"(2)[OF True refl refl TimedOut[unfolded st2_def]] tr2
      show ?thesis
        unfolding Loop_timeout[OF True st2_def TimedOut] by (simp add: st2_def)
    next
      case (Received s)
      show ?thesis
      proof (cases "snd (snd s)")
        case None
        from tr2 show ?thesis
          unfolding Loop_success[OF True st2_def Received None] by simp
      next
        case (Some err)
        from "1.IH"(1)[OF True refl refl Received[unfolded st2_def] refl Some] tr2
        show ?thesis
          unfolding Loop_error[OF True st2_def Received Some] using Some by (simp add: st2_def)
      qed
    qed
  qed
qed

lemma passive_run_phase: "\<forall>e\<in>set (trace (passive_run drv)). phase e = 1"
  unfolding sensorMakePassive_def sensorMakePassive_with_def
  by (rule Loop_phase) (simp add: exec_init_def)

lemma passive_run_no_setCycle [simp]: "setCycle_calls (trace (passive_run drv)) = []"
  using passive_run_phase[of drv] by (intro setCycle_calls_other) auto

lemma readLoop_exited [simp]: "exited (readLoop drv n p) = exited p"
  by (induction n) (simp_all add: iteration_def split: sum.splits)

lemma readLoop_events:
  "\<exists>es. events (readLoop drv n p) = events p @ es \<and> (\<forall>e\<in>set es. phase e = 4)"
proof (induction n)
  case 0
  then show ?case by simp
next
  case (Suc n)
  then obtain es where es: "events (readLoop drv n p) = events p @ es" "\<forall>e\<in>set es. phase e = 4"
    by blast
  show ?case
  proof (cases "get_result drv n")
    case (Inl err)
    with es have "events (readLoop drv (Suc n) p) = events p @ (es @ [EGet (Inl err)])"
      by (simp add: iteration_def)
    moreover have "\<forall>e\<in>set (es @ [EGet (Inl err)]). phase e = 4" using es(2) by simp
    ultimately show ?thesis by blast
  next
    case (Inr pt)
    with es have "events (readLoop drv (Suc n) p) =
        events p @ (es @ [EGet (Inr pt), EGaugeSet ''pm2.5'' (PM25 pt), EGaugeSet ''pm10'' (PM10 pt)])"
      by (simp add: iteration_def)
    moreover have "\<forall>e\<in>set (es @ [EGet (Inr pt), EGaugeSet ''pm2.5'' (PM25 pt),
        EGaugeSet ''pm10'' (PM10 pt)]). phase e = 4" using es(2) by simp
    ultimately show ?thesis by blast
  qed
qed

lemma readLoop_no_setCycle:
  "setCycle_calls (events (readLoop drv n p)) = setCycle_calls (events p)"
proof -
  obtain es where "events (readLoop drv n p) = events p @ es" "\<forall>e\<in>set es. phase e = 4"
    using readLoop_events by blast
  then show ?thesis by (simp add: setCycle_calls_append setCycle_calls_other)
qed

lemma uint_uint8: "uint (uint8 c) = c mod 256"
  by (simp add: uint8_def uint_word_of_int)


lemma passive_run_mem: "e \<in> set (trace (passive_run drv)) \<Longrightarrow> phase e = 1"
  using passive_run_phase by blast

lemma readLoop_mem:
  "e \<in> set (events (readLoop drv n p)) \<Longrightarrow> e \<in> set (events p) \<or> phase e = 4"
  using readLoop_events[of drv n p] by auto

lemma and_then_assoc:
  "and_then f (and_then g h) p = and_then (and_then f g) h p"
  by (auto simp: and_then_def Let_def)

lemma and_then_id: "and_then f (\<lambda>p. p) p = f p"
  by (simp add: and_then_def Let_def)

lemma readLoop_0: "readLoop drv 0 = (\<lambda>p. p)"
  by (rule ext) simp

lemma recordMetrics_loop:
  "recordMetrics cfg drv n =
     (if exited (recordMetrics cfg drv 0) = None
      then readLoop drv n (recordMetrics cfg drv 0) else recordMetrics cfg drv 0)"
proof -
  let ?startup = "and_then (and_then (and_then (open_sensor cfg drv) (make_passive drv))
      (configure_cycle cfg drv)) (make_active drv)"
  have "recordMetrics cfg drv k = and_then ?startup (readLoop drv k) proc_init" for k
    unfolding recordMetrics_def by (simp only: and_then_assoc)
  then have "recordMetrics cfg drv n = and_then ?startup (readLoop drv n) proc_init"
    and "recordMetrics cfg drv 0 = ?startup proc_init"
    by (simp_all only: readLoop_0 and_then_id)
  then show ?thesis by (simp add: and_then_def Let_def)
qed

lemma recordMetrics_running:
  "exited (recordMetrics cfg drv 0) = None \<Longrightarrow>
   recordMetrics cfg drv n = readLoop drv n (recordMetrics cfg drv 0)"
  using recordMetrics_loop[of cfg drv n] by presburger

lemma recordMetrics_stopped:
  "exited (recordMetrics cfg drv 0) \<noteq> None \<Longrightarrow>
   recordMetrics cfg drv n = recordMetrics cfg drv 0"
  using recordMetrics_loop[of cfg drv n] by presburger

lemma recordMetrics_exited:
  "exited (recordMetrics cfg drv n) = exited (recordMetrics cfg drv 0)"
  by (subst recordMetrics_loop) simp

lemma recordMetrics_Suc:
  assumes "exited (recordMetrics cfg drv n) = None"
  shows "recordMetrics cfg drv (Suc n) = iteration drv n (recordMetrics cfg drv n)"
proof -
  from assms have 0: "exited (recordMetrics cfg drv 0) = None"
    by (simp only: recordMetrics_exited[of cfg drv n])
  show ?thesis
    using recordMetrics_loop[of cfg drv n] recordMetrics_loop[of cfg drv "Suc n"] 0 by simp
qed

lemmas startup_defs = recordMetrics_def and_then_def open_sensor_def make_passive_def
  configure_cycle_def set_cycle_def make_active_def os_Exit_def proc_init_def Let_def


lemma startup_setCycle_calls:
  fixes drv :: "('e, 'v) driver"
  assumes "new_result drv (portPath cfg) = None" and "responseError (passive_run drv) = None"
  shows "setCycle_calls (events (recordMetrics cfg drv n)) =
           (if forceSetCycle cfg then [uint8 (cycle cfg)]
            else case cycle_result drv of
                   Inl e \<Rightarrow> []
                 | Inr current \<Rightarrow> if current \<noteq> uint8 (cycle cfg) then [uint8 (cycle cfg)] else [])"
  using assms
  by (simp add: startup_defs readLoop_no_setCycle setCycle_calls_append
      split: option.splits sum.splits)

lemma forced_no_read:
  fixes drv :: "('e, 'v) driver"
  assumes "forceSetCycle cfg"
  shows "ECycle r \<notin> set (events (recordMetrics cfg drv n))"
  using assms
  by (auto simp: startup_defs split: option.splits sum.splits if_splits
      dest!: readLoop_mem passive_run_mem)


lemma Loop_nil_received:
  assumes "r \<le> N" and "responseError (Loop N T dh mp r st) = None"
  shows "\<exists>j. ERecv j None \<in> set (trace (Loop N T dh mp r st))"
  using assms
proof (induction N T dh mp r st rule: Loop.induct)
  case (1 N T dh mp r st)
  note True = \<open>r \<le> N\<close>
  define st2 where "st2 = go_func mp r (sleep_before r st)"
  show ?case
  proof (cases "select_response T dh r st2")
    case TimedOut
    note eq = Loop_timeout[OF True st2_def TimedOut]
    show ?thesis
    proof (cases "Suc r \<le> N")
      case True
      from "1.IH"(2)[OF \<open>r \<le> N\<close> refl refl TimedOut[unfolded st2_def]] "1.prems"(2) True
      show ?thesis unfolding eq by (simp add: st2_def)
    next
      case False
      with "1.prems"(2) show ?thesis unfolding eq by (simp add: Loop_done)
    qed
  next
    case (Received s)
    show ?thesis
    proof (cases "snd (snd s)")
      case None
      show ?thesis
        unfolding Loop_success[OF True st2_def Received None] by auto
    next
      case (Some err)
      note eq = Loop_error[OF True st2_def Received Some]
      show ?thesis
      proof (cases "Suc r \<le> N")
        case True
        from "1.IH"(1)[OF \<open>r \<le> N\<close> refl refl Received[unfolded st2_def] refl Some] "1.prems"(2) True
        show ?thesis unfolding eq using Some by (simp add: st2_def)
      next
        case False
        with "1.prems"(2) show ?thesis unfolding eq by (simp add: Loop_done)
      qed
    qed
  qed
qed

lemma passive_nil_received:
  "responseError (passive_run drv) = None \<Longrightarrow> \<exists>j. ERecv j None \<in> set (trace (passive_run drv))"
  unfolding sensorMakePassive_def sensorMakePassive_with_def
  by (rule Loop_nil_received) simp_all

lemma same_phase_sorted: "\<forall>e\<in>set es. phase e = k \<Longrightarrow> sorted (map phase es)"
  by (induction es) auto

lemma passive_run_sorted: "sorted (map phase (trace (passive_run drv)))"
  using passive_run_phase by (rule same_phase_sorted)

lemma startup_sorted: "sorted (map phase (events (recordMetrics cfg drv 0)))"
  by (auto simp: startup_defs sorted_append passive_run_sorted
      split: option.splits sum.splits dest!: passive_run_mem)

lemma startup_running_phase:
  "exited (recordMetrics cfg drv 0) = None \<Longrightarrow> e \<in> set (events (recordMetrics cfg drv 0)) \<Longrightarrow>
   phase e \<le> 3"
  by (auto simp: startup_defs split: option.splits sum.splits if_splits dest!: passive_run_mem)

lemma startup_no_read:
  "e \<in> set (events (recordMetrics cfg drv 0)) \<Longrightarrow> phase e \<noteq> 4"
  by (auto simp: startup_defs split: option.splits sum.splits if_splits dest!: passive_run_mem)

lemma recordMetrics_sorted: "sorted (map phase (events (recordMetrics cfg drv n)))"
proof (cases "exited (recordMetrics cfg drv 0) = None")
  case False
  show ?thesis unfolding recordMetrics_stopped[OF False, of n] by (rule startup_sorted)
next
  case True
  obtain es where es: "events (readLoop drv n (recordMetrics cfg drv 0)) =
      events (recordMetrics cfg drv 0) @ es" "\<forall>e\<in>set es. phase e = 4"
    using readLoop_events by blast
  have "sorted (map phase es)" using es(2) by (rule same_phase_sorted)
  moreover have "\<forall>a\<in>set (events (recordMetrics cfg drv 0)). \<forall>b\<in>set es. phase a \<le> phase b"
    using startup_running_phase[OF True] es(2) by fastforce
  ultimately show ?thesis
    unfolding recordMetrics_running[OF True, of n] es(1) using startup_sorted[of cfg drv]
    by (simp add: sorted_append)
qed

lemma startup_passive_before:
  "e \<in> set (events (recordMetrics cfg drv 0)) \<Longrightarrow> phase e = 2 \<or> phase e = 3 \<Longrightarrow>
   \<exists>j. ERecv j None \<in> set (events (recordMetrics cfg drv 0))"
  by (auto simp: startup_defs split: option.splits sum.splits if_splits
      dest!: passive_run_mem dest: passive_nil_received)

section \<open>The cycle written to the sensor\<close>

lemma uint8_eq_iff: "current = uint8 c \<longleftrightarrow> uint current = c mod 256"
  by (simp add: word_uint_eq_iff uint_uint8)

lemma usb_sensor_passive:
  "passive_run usb_sensor =
     \<lparr>now = 3 * second, sendq = [], responseError = None, trace = [EGo 0, ERecv 0 None]\<rparr>"
  by (simp add: sensorMakePassive_def sensorMakePassive_with_def retries_def apiCallTimeout_def
      Loop_step Loop_done exec_init_def sleep_before_def go_func_def select_response_def
      Let_def second_def usb_sensor_def timer_wins_def)

lemma usb_sensor_ok:
  "new_result usb_sensor (portPath (flags c f)) = None"
  "responseError (passive_run usb_sensor) = None"
  "cycle_result usb_sensor = Inr 5"
  "forceSetCycle (flags c f) = f"
  "cycle (flags c f) = c"
  by (simp_all add: usb_sensor_passive) (simp_all add: usb_sensor_def flags_def)

text \<open>
  C4, as the code has it. Without \<^verbatim>\<open>force-set-cycle\<close>, when the sensor opens, passive
  mode succeeds and the sensor reports its cycle: if the reported cycle equals the
  configured cycle, \<^verbatim>\<open>SetCycle\<close> is not called. The comparison is made with the
  configured cycle converted by \<^verbatim>\<open>uint8\<close>, that is modulo 256: when the reported cycle
  equals that value \<^verbatim>\<open>SetCycle\<close> is not called, and when it differs \<^verbatim>\<open>SetCycle\<close> is
  called exactly once, with the converted value. For a configured cycle from 0 to 255 the
  converted value is the configured cycle.
\<close>

theorem cycle_written_when_different:
  fixes drv :: "('e, 'v) driver"
  assumes "\<not> forceSetCycle cfg"
    and "new_result drv (portPath cfg) = None"
    and "responseError (passive_run drv) = None"
    and "cycle_result drv = Inr current"
  shows "(uint current = cycle cfg \<longrightarrow> setCycle_calls (events (recordMetrics cfg drv n)) = []) \<and>
         (uint current = cycle cfg mod 256 \<longrightarrow>
            setCycle_calls (events (recordMetrics cfg drv n)) = []) \<and>
         (uint current \<noteq> cycle cfg mod 256 \<longrightarrow>
            setCycle_calls (events (recordMetrics cfg drv n)) = [uint8 (cycle cfg)]) \<and>
         uint (uint8 (cycle cfg)) = cycle cfg mod 256"
proof -
  have calls: "setCycle_calls (events (recordMetrics cfg drv n)) =
      (if uint current = cycle cfg mod 256 then [] else [uint8 (cycle cfg)])"
    using assms(1,4) by (simp add: startup_setCycle_calls[OF assms(2,3)] uint8_eq_iff)
  have "uint current = cycle cfg \<Longrightarrow> uint current = cycle cfg mod 256"
  proof -
    assume eq: "uint current = cycle cfg"
    have "0 \<le> uint current" "uint current < 256"
      using uint_lt2p[of current] by simp_all
    then show ?thesis using eq by simp
  qed
  with calls show ?thesis by (auto simp: uint_uint8)
qed

theorem cycle_written_when_different_witness:
  "setCycle_calls (events (recordMetrics (flags 5 False) usb_sensor 2)) = [] \<and>
   setCycle_calls (events (recordMetrics (flags 7 False) usb_sensor 2)) = [7]"
  using cycle_written_when_different [of "flags 5 False" usb_sensor 5 2]
    cycle_written_when_different [of "flags 7 False" usb_sensor 5 2]
  by (simp add: usb_sensor_ok uint8_def)

text \<open>
  C4 as it is stated fails for a configured cycle outside 0 to 255. With
  \<^verbatim>\<open>--cycle=261\<close> and a sensor that reports cycle 5, the reported cycle differs from
  the configured one, yet \<^verbatim>\<open>uint8(261)\<close> is 5 and \<^verbatim>\<open>SetCycle\<close> is not called.
\<close>

theorem cycle_written_when_different_counterexample:
  "\<not> forceSetCycle (flags 261 False) \<and>
   new_result usb_sensor (portPath (flags 261 False)) = None \<and>
   responseError (passive_run usb_sensor) = None \<and>
   cycle_result usb_sensor = Inr 5 \<and>
   uint (5 :: 8 word) \<noteq> cycle (flags 261 False) \<and>
   setCycle_calls (events (recordMetrics (flags 261 False) usb_sensor 0)) = []"
  by (simp add: usb_sensor_ok startup_setCycle_calls uint8_def)

text \<open>
  C9, as the code has it. With \<^verbatim>\<open>force-set-cycle\<close>, every start that reaches the
  configuration of the cycle calls \<^verbatim>\<open>SetCycle\<close> exactly once, with the configured cycle
  converted by \<^verbatim>\<open>uint8\<close> (the configured cycle modulo 256, which is the configured cycle
  itself from 0 to 255), and never calls \<^verbatim>\<open>Cycle\<close>: what the sensor would report plays
  no part.
\<close>

theorem forced_cycle_written:
  fixes drv :: "('e, 'v) driver"
  assumes "forceSetCycle cfg"
    and "new_result drv (portPath cfg) = None"
    and "responseError (passive_run drv) = None"
  shows "setCycle_calls (events (recordMetrics cfg drv n)) = [uint8 (cycle cfg)] \<and>
         uint (uint8 (cycle cfg)) = cycle cfg mod 256 \<and>
         (\<forall>r. ECycle r \<notin> set (events (recordMetrics cfg drv n)))"
  using assms(1) forced_no_read[OF assms(1), where drv = drv and n = n]
  by (simp add: startup_setCycle_calls[OF assms(2,3)] uint_uint8)

theorem forced_cycle_written_witness:
  "setCycle_calls (events (recordMetrics (flags 5 True) usb_sensor 2)) = [5] \<and>
   (\<forall>r. ECycle r \<notin> set (events (recordMetrics (flags 5 True) usb_sensor 2)))"
  using forced_cycle_written [of "flags 5 True" usb_sensor 2]
  by (simp add: usb_sensor_ok uint8_def)

text \<open>
  C9 as it is stated fails for a configured cycle outside 0 to 255: with
  \<^verbatim>\<open>--cycle=261\<close> the one call of \<^verbatim>\<open>SetCycle\<close> carries 5, not the configured 261.
\<close>

theorem forced_cycle_written_counterexample:
  "forceSetCycle (flags 261 True) \<and>
   new_result usb_sensor (portPath (flags 261 True)) = None \<and>
   responseError (passive_run usb_sensor) = None \<and>
   setCycle_calls (events (recordMetrics (flags 261 True) usb_sensor 0)) = [5] \<and>
   uint (5 :: 8 word) \<noteq> cycle (flags 261 True)"
  by (simp add: usb_sensor_ok startup_setCycle_calls uint8_def)

text \<open>
  C10. The configured cycle is converted by \<^verbatim>\<open>uint8\<close> before it is compared or written,
  and no range is checked: for every configured cycle \<open>c\<close>, a start that reaches the
  configuration writes, when it writes, the value \<open>c mod 256\<close>; with \<^verbatim>\<open>force-set-cycle\<close>
  it writes once; without it, it writes nothing exactly when the reported cycle is
  \<open>c mod 256\<close>. For \<open>c\<close> outside 0 to 255, \<open>c mod 256\<close> is not \<open>c\<close>.
\<close>

theorem cycle_truncated:
  fixes drv :: "('e, 'v) driver"
  assumes "new_result drv (portPath cfg) = None"
    and "responseError (passive_run drv) = None"
  shows "(forceSetCycle cfg \<longrightarrow>
            (\<exists>w. setCycle_calls (events (recordMetrics cfg drv n)) = [w] \<and>
                 uint w = cycle cfg mod 256)) \<and>
         (\<not> forceSetCycle cfg \<and> cycle_result drv = Inr current \<longrightarrow>
            (setCycle_calls (events (recordMetrics cfg drv n)) = [] \<longleftrightarrow>
               uint current = cycle cfg mod 256) \<and>
            (\<forall>w\<in>set (setCycle_calls (events (recordMetrics cfg drv n))).
               uint w = cycle cfg mod 256)) \<and>
         (cycle cfg < 0 \<or> 255 < cycle cfg \<longrightarrow> cycle cfg mod 256 \<noteq> cycle cfg)"
proof -
  have "cycle cfg mod 256 \<noteq> cycle cfg" if "cycle cfg < 0 \<or> 255 < cycle cfg"
  proof -
    have "0 \<le> cycle cfg mod 256" "cycle cfg mod 256 < 256" by simp_all
    with that show ?thesis by linarith
  qed
  then show ?thesis
    by (auto simp: startup_setCycle_calls[OF assms] uint_uint8 uint8_eq_iff)
qed

theorem cycle_truncated_witness:
  "setCycle_calls (events (recordMetrics (flags 261 True) usb_sensor 1)) = [5] \<and>
   setCycle_calls (events (recordMetrics (flags 261 False) usb_sensor 1)) = [] \<and>
   setCycle_calls (events (recordMetrics (flags (- 1) False) usb_sensor 1)) = [255]"
proof -
  have a: "setCycle_calls (events (recordMetrics (flags 261 True) usb_sensor 1)) = [5]"
    by (simp add: usb_sensor_ok startup_setCycle_calls uint8_def)
  have b: "setCycle_calls (events (recordMetrics (flags (- 1) False) usb_sensor 1)) = [255]"
    by (simp add: usb_sensor_ok startup_setCycle_calls uint8_def)
  from cycle_truncated [of usb_sensor "flags 261 False" 1 5] a b
  show ?thesis by (simp add: usb_sensor_ok)
qed

section \<open>The read loop\<close>

lemma active_entered:
  assumes "EMakeActive None \<in> set (events (recordMetrics cfg drv n))"
  shows "exited (recordMetrics cfg drv 0) = None"
proof (rule ccontr)
  assume ex: "exited (recordMetrics cfg drv 0) \<noteq> None"
  from assms have "EMakeActive None \<in> set (events (recordMetrics cfg drv 0))"
    by (simp only: recordMetrics_stopped[OF ex, of n])
  with ex show False
    by (auto simp: startup_defs split: option.splits sum.splits if_splits dest!: passive_run_mem)
qed

lemma active_entered_step:
  assumes "EMakeActive None \<in> set (events (recordMetrics cfg drv n))"
  shows "recordMetrics cfg drv (Suc n) = iteration drv n (recordMetrics cfg drv n)"
    and "exited (recordMetrics cfg drv n) = None"
proof -
  from active_entered[OF assms] show "exited (recordMetrics cfg drv n) = None"
    by (simp only: recordMetrics_exited[of cfg drv n])
  then show "recordMetrics cfg drv (Suc n) = iteration drv n (recordMetrics cfg drv n)"
    by (rule recordMetrics_Suc)
qed

lemma usb_sensor_start:
  "recordMetrics (flags 5 False) usb_sensor 0 =
     \<lparr>events = [ENew ''/dev/ttyUSB0'' None, EGo 0, ERecv 0 None, ECycle (Inr 5), EMakeActive None],
      airqualityPM = Map.empty, exited = None\<rparr>"
  by (simp add: startup_defs usb_sensor_passive) (simp add: usb_sensor_def flags_def uint8_def)

lemma usb_sensor_reads:
  "get_result usb_sensor 0 = Inr \<lparr>PM25 = 12, PM10 = 20\<rparr>"
  "get_result usb_sensor (Suc 0) = Inl ()"
  "get_result usb_sensor (Suc (Suc 0)) = Inr \<lparr>PM25 = 14, PM10 = 20\<rparr>"
  by (simp_all add: usb_sensor_def)

lemma usb_sensor_one:
  "recordMetrics (flags 5 False) usb_sensor (Suc 0) =
     \<lparr>events = [ENew ''/dev/ttyUSB0'' None, EGo 0, ERecv 0 None, ECycle (Inr 5), EMakeActive None,
                EGet (Inr \<lparr>PM25 = 12, PM10 = 20\<rparr>), EGaugeSet ''pm2.5'' 12, EGaugeSet ''pm10'' 20],
      airqualityPM = [''pm2.5'' \<mapsto> 12, ''pm10'' \<mapsto> 20], exited = None\<rparr>"
  by (simp add: recordMetrics_Suc usb_sensor_start iteration_def usb_sensor_reads)

text \<open>
  C5. Once \<^verbatim>\<open>MakeActive\<close> has succeeded, every turn of the loop whose \<^verbatim>\<open>Get\<close> returns a
  measurement leaves the gauge vector with the measurement's \<^verbatim>\<open>PM25\<close> under the label
  \<^verbatim>\<open>pm2.5\<close> and its \<^verbatim>\<open>PM10\<close> under \<^verbatim>\<open>pm10\<close>, whatever these labels held before; nothing
  else in the gauge vector changes.
\<close>

theorem measurement_published:
  assumes "EMakeActive None \<in> set (events (recordMetrics cfg drv n))"
    and "get_result drv n = Inr pt"
  shows "airqualityPM (recordMetrics cfg drv (Suc n)) =
           (airqualityPM (recordMetrics cfg drv n))(''pm2.5'' \<mapsto> PM25 pt, ''pm10'' \<mapsto> PM10 pt) \<and>
         airqualityPM (recordMetrics cfg drv (Suc n)) ''pm2.5'' = Some (PM25 pt) \<and>
         airqualityPM (recordMetrics cfg drv (Suc n)) ''pm10'' = Some (PM10 pt) \<and>
         events (recordMetrics cfg drv (Suc n)) =
           events (recordMetrics cfg drv n) @
           [EGet (Inr pt), EGaugeSet ''pm2.5'' (PM25 pt), EGaugeSet ''pm10'' (PM10 pt)]"
  using assms(2) by (simp add: active_entered_step(1)[OF assms(1)] iteration_def)

theorem measurement_published_witness:
  "airqualityPM (recordMetrics (flags 5 False) usb_sensor (Suc 0)) ''pm2.5'' = Some 12 \<and>
   airqualityPM (recordMetrics (flags 5 False) usb_sensor (Suc 0)) ''pm10'' = Some 20"
  using measurement_published [of "flags 5 False" usb_sensor 0 "\<lparr>PM25 = 12, PM10 = 20\<rparr>"]
  by (simp add: usb_sensor_start usb_sensor_reads)

text \<open>
  C6. Once \<^verbatim>\<open>MakeActive\<close> has succeeded, a turn of the loop whose \<^verbatim>\<open>Get\<close> fails leaves
  the gauge vector as it was and the process running, and the next thing the program does
  is the next call of \<^verbatim>\<open>Get\<close>: no sleep lies between the two. This holds for every turn,
  so no number of failures ends the loop.
\<close>

theorem failed_read_goes_on:
  assumes "EMakeActive None \<in> set (events (recordMetrics cfg drv n))"
    and "get_result drv n = Inl err"
  shows "airqualityPM (recordMetrics cfg drv (Suc n)) = airqualityPM (recordMetrics cfg drv n) \<and>
         exited (recordMetrics cfg drv (Suc n)) = None \<and>
         events (recordMetrics cfg drv (Suc n)) = events (recordMetrics cfg drv n) @ [EGet (Inl err)] \<and>
         (\<exists>es. events (recordMetrics cfg drv (Suc (Suc n))) =
                 events (recordMetrics cfg drv n) @
                 [EGet (Inl err), EGet (get_result drv (Suc n))] @ es)"
proof -
  note step = active_entered_step[OF assms(1)]
  have 1: "recordMetrics cfg drv (Suc n) =
      (recordMetrics cfg drv n)\<lparr>events := events (recordMetrics cfg drv n) @ [EGet (Inl err)]\<rparr>"
    using assms(2) by (simp add: step(1) iteration_def)
  have ex: "exited (recordMetrics cfg drv (Suc n)) = None"
    using step(2) by (simp add: 1)
  have 2: "recordMetrics cfg drv (Suc (Suc n)) = iteration drv (Suc n) (recordMetrics cfg drv (Suc n))"
    using ex by (rule recordMetrics_Suc)
  have "\<exists>es. events (iteration drv (Suc n) p) = events p @ [EGet (get_result drv (Suc n))] @ es" for p
    by (cases "get_result drv (Suc n)") (simp_all add: iteration_def)
  then obtain es where "events (recordMetrics cfg drv (Suc (Suc n))) =
      events (recordMetrics cfg drv (Suc n)) @ [EGet (get_result drv (Suc n))] @ es"
    unfolding 2 by blast
  then have "events (recordMetrics cfg drv (Suc (Suc n))) =
      events (recordMetrics cfg drv n) @ [EGet (Inl err), EGet (get_result drv (Suc n))] @ es"
    by (simp add: 1)
  then show ?thesis using ex by (auto simp: 1)
qed

theorem failed_read_goes_on_witness:
  "airqualityPM (recordMetrics (flags 5 False) usb_sensor (Suc (Suc 0))) =
     [''pm2.5'' \<mapsto> 12, ''pm10'' \<mapsto> 20] \<and>
   exited (recordMetrics (flags 5 False) usb_sensor (Suc (Suc 0))) = None \<and>
   (\<exists>es. events (recordMetrics (flags 5 False) usb_sensor (Suc (Suc (Suc 0)))) =
      events (recordMetrics (flags 5 False) usb_sensor (Suc 0)) @
      [EGet (Inl ()), EGet (Inr \<lparr>PM25 = 14, PM10 = 20\<rparr>)] @ es)"
  using failed_read_goes_on [of "flags 5 False" usb_sensor "Suc 0" "()"]
  by (simp add: usb_sensor_one usb_sensor_reads)

section \<open>Failures during the start\<close>

lemma failed_call_phase: "failed_call c \<Longrightarrow> phase c \<noteq> 1 \<and> phase c \<noteq> 4 \<and> phase c \<noteq> 5"
  by (cases c rule: failed_call.cases) simp_all

lemma two_last:
  assumes "2 \<le> length es"
  shows "es = butlast (butlast es) @ [last (butlast es), last es]"
proof -
  from assms have 1: "es \<noteq> []" by auto
  from assms have 2: "butlast es \<noteq> []" by (cases es rule: rev_cases) auto
  have "es = butlast es @ [last es]" using 1 by simp
  also have "butlast es = butlast (butlast es) @ [last (butlast es)]" using 2 by simp
  finally show ?thesis by simp
qed

lemma startup_failed_call:
  assumes "failed_call c" and "c \<in> set (events (recordMetrics cfg drv 0))"
  shows "2 \<le> length (events (recordMetrics cfg drv 0)) \<and>
         last (events (recordMetrics cfg drv 0)) = EExit 1 \<and>
         last (butlast (events (recordMetrics cfg drv 0))) = c \<and>
         exited (recordMetrics cfg drv 0) = Some 1"
  using assms failed_call_phase[OF assms(1)]
  by (auto simp: startup_defs butlast_append split: option.splits sum.splits if_splits
      dest!: passive_run_mem)


subsection \<open>Exit at the first failure\<close>

lemma startup_failed_passive:
  fixes drv :: "('e, 'v) driver"
  assumes "new_result drv (portPath cfg) = None" and "responseError (passive_run drv) = Some err"
  shows "recordMetrics cfg drv 0 =
           \<lparr>events = ENew (portPath cfg) None # trace (passive_run drv) @ [EExit 1],
            airqualityPM = Map.empty, exited = Some 1\<rparr>"
  using assms by (simp add: startup_defs)

lemma startup_first_event:
  "\<exists>es. events (recordMetrics cfg drv 0) =
     ENew (portPath cfg) (new_result drv (portPath cfg)) # es"
  by (auto simp: startup_defs split: option.splits sum.splits)

lemma startup_exit_status:
  "exited (recordMetrics cfg drv 0) = None \<or> exited (recordMetrics cfg drv 0) = Some 1"
  by (auto simp: startup_defs split: option.splits sum.splits)

lemma no_read_when_exited:
  assumes "exited (recordMetrics cfg drv 0) \<noteq> None"
  shows "EGet r \<notin> set (events (recordMetrics cfg drv n))"
  unfolding recordMetrics_stopped[OF assms, of n]
  using startup_no_read[of "EGet r" cfg drv] by auto

text \<open>
  C7. The start of \<^verbatim>\<open>recordMetrics\<close> ends the process at the first failure. When a call of
  \<^verbatim>\<open>sds011.New\<close>, \<^verbatim>\<open>Cycle\<close>, \<^verbatim>\<open>SetCycle\<close> or \<^verbatim>\<open>MakeActive\<close> answers with an error, the
  very next thing the program does is \<^verbatim>\<open>os.Exit(1)\<close>, nothing follows it, and \<^verbatim>\<open>Get\<close> is
  never called. The same holds when \<^verbatim>\<open>sensorMakePassive\<close> returns an error, which it does
  once its attempts are used up. The first call is always \<^verbatim>\<open>sds011.New\<close>, and the only
  status the process ever exits with is 1.
\<close>

theorem startup_failure_exits:
  fixes drv :: "('e, 'v) driver"
  shows "(failed_call c \<and> c \<in> set (events (recordMetrics cfg drv n)) \<longrightarrow>
            (\<exists>pre. events (recordMetrics cfg drv n) = pre @ [c, EExit 1]) \<and>
            exited (recordMetrics cfg drv n) = Some 1 \<and>
            (\<forall>r. EGet r \<notin> set (events (recordMetrics cfg drv n)))) \<and>
         (new_result drv (portPath cfg) = None \<and> responseError (passive_run drv) = Some err \<longrightarrow>
            events (recordMetrics cfg drv n) =
              ENew (portPath cfg) None # trace (passive_run drv) @ [EExit 1] \<and>
            exited (recordMetrics cfg drv n) = Some 1 \<and>
            (\<forall>r. EGet r \<notin> set (events (recordMetrics cfg drv n)))) \<and>
         (\<exists>es. events (recordMetrics cfg drv n) =
            ENew (portPath cfg) (new_result drv (portPath cfg)) # es) \<and>
         (exited (recordMetrics cfg drv n) = None \<or> exited (recordMetrics cfg drv n) = Some 1)"
proof (intro conjI impI)
  show "exited (recordMetrics cfg drv n) = None \<or> exited (recordMetrics cfg drv n) = Some 1"
    using startup_exit_status[of cfg drv] by (simp only: recordMetrics_exited[of cfg drv n])
next
  show "\<exists>es. events (recordMetrics cfg drv n) =
      ENew (portPath cfg) (new_result drv (portPath cfg)) # es"
  proof (cases "exited (recordMetrics cfg drv 0) = None")
    case True
    obtain es where "events (recordMetrics cfg drv 0) =
        ENew (portPath cfg) (new_result drv (portPath cfg)) # es"
      using startup_first_event by blast
    moreover obtain fs where "events (readLoop drv n (recordMetrics cfg drv 0)) =
        events (recordMetrics cfg drv 0) @ fs"
      using readLoop_events by blast
    ultimately show ?thesis unfolding recordMetrics_running[OF True, of n] by simp
  next
    case False
    show ?thesis unfolding recordMetrics_stopped[OF False, of n] by (rule startup_first_event)
  qed
next
  assume a: "new_result drv (portPath cfg) = None \<and> responseError (passive_run drv) = Some err"
  then have 0: "recordMetrics cfg drv 0 =
      \<lparr>events = ENew (portPath cfg) None # trace (passive_run drv) @ [EExit 1],
       airqualityPM = Map.empty, exited = Some 1\<rparr>"
    using startup_failed_passive by blast
  then have ex: "exited (recordMetrics cfg drv 0) \<noteq> None" by simp
  show "events (recordMetrics cfg drv n) =
      ENew (portPath cfg) None # trace (passive_run drv) @ [EExit 1]"
    and "exited (recordMetrics cfg drv n) = Some 1"
    unfolding recordMetrics_stopped[OF ex, of n] by (simp_all add: 0)
  show "\<forall>r. EGet r \<notin> set (events (recordMetrics cfg drv n))"
    using no_read_when_exited[OF ex] by blast
next
  assume a: "failed_call c \<and> c \<in> set (events (recordMetrics cfg drv n))"
  have c0: "c \<in> set (events (recordMetrics cfg drv 0))"
  proof (cases "exited (recordMetrics cfg drv 0) = None")
    case True
    from a have "c \<in> set (events (readLoop drv n (recordMetrics cfg drv 0)))"
      by (simp only: recordMetrics_running[OF True, of n])
    from readLoop_mem[OF this] failed_call_phase[of c] a show ?thesis by blast
  next
    case False
    from a show ?thesis by (simp only: recordMetrics_stopped[OF False, of n])
  qed
  note f = startup_failed_call[OF conjunct1[OF a] c0]
  then have ex: "exited (recordMetrics cfg drv 0) \<noteq> None" by simp
  from f two_last[of "events (recordMetrics cfg drv 0)"]
  have "events (recordMetrics cfg drv 0) =
      butlast (butlast (events (recordMetrics cfg drv 0))) @ [c, EExit 1]" by simp
  then show "\<exists>pre. events (recordMetrics cfg drv n) = pre @ [c, EExit 1]"
    unfolding recordMetrics_stopped[OF ex, of n] by blast
  show "exited (recordMetrics cfg drv n) = Some 1"
    unfolding recordMetrics_stopped[OF ex, of n] using f by simp
  show "\<forall>r. EGet r \<notin> set (events (recordMetrics cfg drv n))"
    using no_read_when_exited[OF ex] by blast
qed

lemma failing_runs:
  "events (recordMetrics (flags 5 True) (usb_sensor\<lparr>new_result := \<lambda>p. Some ()\<rparr>) 3) =
     [ENew ''/dev/ttyUSB0'' (Some ()), EExit 1]"
  "events (recordMetrics (flags 5 False) (usb_sensor\<lparr>cycle_result := Inl ()\<rparr>) 3) =
     [ENew ''/dev/ttyUSB0'' None, EGo 0, ERecv 0 None, ECycle (Inl ()), EExit 1]"
  "events (recordMetrics (flags 5 True) (usb_sensor\<lparr>setCycle_result := \<lambda>w. Some ()\<rparr>) 3) =
     [ENew ''/dev/ttyUSB0'' None, EGo 0, ERecv 0 None, ESetCycle 5 (Some ()), EExit 1]"
  "events (recordMetrics (flags 5 True) (usb_sensor\<lparr>makeActive_result := Some ()\<rparr>) 3) =
     [ENew ''/dev/ttyUSB0'' None, EGo 0, ERecv 0 None, ESetCycle 5 None, EMakeActive (Some ()),
      EExit 1]"
  by (simp_all add: startup_defs sensorMakePassive_def sensorMakePassive_with_def retries_def
      apiCallTimeout_def Loop_step Loop_done exec_init_def sleep_before_def go_func_def
      select_response_def second_def usb_sensor_def timer_wins_def flags_def uint8_def)

lemma mute_sensor_run:
  "new_result mute_sensor (portPath (flags c f)) = None"
  "responseError (passive_run mute_sensor) = Some (ResponseTimeout 0)"
  "trace (passive_run mute_sensor) = [EGo 0, ETimeout 0]"
  by (simp_all add: sensorMakePassive_def sensorMakePassive_with_def retries_def
      apiCallTimeout_def Loop_step Loop_done exec_init_def sleep_before_def go_func_def
      select_response_def Let_def second_def mute_sensor_def usb_sensor_def timer_wins_def)

theorem startup_failure_exits_witness:
  "exited (recordMetrics (flags 5 True) (usb_sensor\<lparr>new_result := \<lambda>p. Some ()\<rparr>) 3) = Some 1 \<and>
   exited (recordMetrics (flags 5 False) (usb_sensor\<lparr>cycle_result := Inl ()\<rparr>) 3) = Some 1 \<and>
   exited (recordMetrics (flags 5 True) (usb_sensor\<lparr>setCycle_result := \<lambda>w. Some ()\<rparr>) 3) = Some 1 \<and>
   exited (recordMetrics (flags 5 True) (usb_sensor\<lparr>makeActive_result := Some ()\<rparr>) 3) = Some 1 \<and>
   events (recordMetrics (flags 5 True) mute_sensor 3) =
     [ENew ''/dev/ttyUSB0'' None, EGo 0, ETimeout 0, EExit 1] \<and>
   exited (recordMetrics (flags 5 True) mute_sensor 3) = Some 1"
proof -
  have "exited (recordMetrics (flags 5 True) (usb_sensor\<lparr>new_result := \<lambda>p. Some ()\<rparr>) 3) = Some 1"
    using startup_failure_exits [of "ENew ''/dev/ttyUSB0'' (Some ())" "flags 5 True"
      "usb_sensor\<lparr>new_result := \<lambda>p. Some ()\<rparr>" 3, THEN conjunct1]
    by (simp add: failing_runs)
  moreover
  have "exited (recordMetrics (flags 5 False) (usb_sensor\<lparr>cycle_result := Inl ()\<rparr>) 3) = Some 1"
    using startup_failure_exits [of "ECycle (Inl ())" "flags 5 False"
      "usb_sensor\<lparr>cycle_result := Inl ()\<rparr>" 3, THEN conjunct1]
    by (simp add: failing_runs)
  moreover
  have "exited (recordMetrics (flags 5 True) (usb_sensor\<lparr>setCycle_result := \<lambda>w. Some ()\<rparr>) 3) =
      Some 1"
    using startup_failure_exits [of "ESetCycle 5 (Some ())" "flags 5 True"
      "usb_sensor\<lparr>setCycle_result := \<lambda>w. Some ()\<rparr>" 3, THEN conjunct1]
    by (simp add: failing_runs)
  moreover
  have "exited (recordMetrics (flags 5 True) (usb_sensor\<lparr>makeActive_result := Some ()\<rparr>) 3) =
      Some 1"
    using startup_failure_exits [of "EMakeActive (Some ())" "flags 5 True"
      "usb_sensor\<lparr>makeActive_result := Some ()\<rparr>" 3, THEN conjunct1]
    by (simp add: failing_runs)
  moreover
  have "events (recordMetrics (flags 5 True) mute_sensor 3) =
      [ENew ''/dev/ttyUSB0'' None, EGo 0, ETimeout 0, EExit 1] \<and>
    exited (recordMetrics (flags 5 True) mute_sensor 3) = Some 1"
    using startup_failure_exits [of _ "flags 5 True" mute_sensor 3
      "ResponseTimeout 0", THEN conjunct2, THEN conjunct1]
    by (simp add: mute_sensor_run) (simp add: flags_def)
  ultimately show ?thesis by blast
qed

section \<open>The order of the start\<close>

lemma startup_before:
  assumes "e \<in> set (events (recordMetrics cfg drv 0))"
  shows "(1 \<le> phase e \<and> phase e \<le> 4 \<longrightarrow> ENew (portPath cfg) None \<in> set (events (recordMetrics cfg drv 0))) \<and>
         (2 \<le> phase e \<and> phase e \<le> 4 \<longrightarrow> (\<exists>j. ERecv j None \<in> set (events (recordMetrics cfg drv 0)))) \<and>
         phase e \<noteq> 4"
  using assms
  by (auto simp: startup_defs split: option.splits sum.splits if_splits
      dest!: passive_run_mem dest: passive_nil_received)

lemma startup_complete:
  assumes "exited (recordMetrics cfg drv 0) = None"
  shows "ENew (portPath cfg) None \<in> set (events (recordMetrics cfg drv 0)) \<and>
         (\<exists>j. ERecv j None \<in> set (events (recordMetrics cfg drv 0))) \<and>
         EMakeActive None \<in> set (events (recordMetrics cfg drv 0))"
  using assms
  by (auto simp: startup_defs split: option.splits sum.splits if_splits
      dest: passive_nil_received)

lemma run_before:
  assumes "e \<in> set (events (recordMetrics cfg drv n))"
  shows "(1 \<le> phase e \<and> phase e \<le> 4 \<longrightarrow> ENew (portPath cfg) None \<in> set (events (recordMetrics cfg drv n))) \<and>
         (2 \<le> phase e \<and> phase e \<le> 4 \<longrightarrow> (\<exists>j. ERecv j None \<in> set (events (recordMetrics cfg drv n)))) \<and>
         (phase e = 4 \<longrightarrow> EMakeActive None \<in> set (events (recordMetrics cfg drv n)))"
proof (cases "exited (recordMetrics cfg drv 0) = None")
  case False
  from assms startup_before[of e cfg drv] show ?thesis
    unfolding recordMetrics_stopped[OF False, of n] by blast
next
  case True
  obtain es where es: "events (readLoop drv n (recordMetrics cfg drv 0)) =
      events (recordMetrics cfg drv 0) @ es"
    using readLoop_events by blast
  from startup_complete[OF True] show ?thesis
    unfolding recordMetrics_running[OF True, of n] es by auto
qed

text \<open>
  C8. Whatever \<^verbatim>\<open>recordMetrics\<close> has done up to some event, the events before it belong to
  the same or an earlier stage: opening, passive mode, cycle, active mode, read loop, in
  this order. Before any event after the opening, \<^verbatim>\<open>sds011.New\<close> has succeeded. Before any
  call of \<^verbatim>\<open>Cycle\<close> or \<^verbatim>\<open>SetCycle\<close>, and before \<^verbatim>\<open>MakeActive\<close> and the reads, a call of
  \<^verbatim>\<open>MakePassive\<close> has returned \<^verbatim>\<open>nil\<close> and \<^verbatim>\<open>sensorMakePassive\<close> has received it. Before
  any call of \<^verbatim>\<open>Get\<close> and any gauge update, \<^verbatim>\<open>MakeActive\<close> has succeeded.
\<close>

theorem mode_order:
  assumes "events (recordMetrics cfg drv n) = pre @ ev # post"
  shows "(\<forall>e\<in>set pre. phase e \<le> phase ev) \<and>
         (1 \<le> phase ev \<and> phase ev \<le> 4 \<longrightarrow> ENew (portPath cfg) None \<in> set pre) \<and>
         (2 \<le> phase ev \<and> phase ev \<le> 4 \<longrightarrow> (\<exists>j. ERecv j None \<in> set pre)) \<and>
         (phase ev = 4 \<longrightarrow> EMakeActive None \<in> set pre)"
proof -
  have "sorted (map phase (pre @ ev # post))"
    using recordMetrics_sorted[of cfg drv n] by (simp only: assms)
  then have before: "\<forall>e\<in>set pre. phase e \<le> phase ev"
    and after: "\<forall>e\<in>set post. phase ev \<le> phase e"
    by (auto simp: sorted_append)
  have earlier: "e \<in> set pre" if "e \<in> set (events (recordMetrics cfg drv n))"
    and "phase e < phase ev" for e
    using that after unfolding assms by auto
  have "ev \<in> set (events (recordMetrics cfg drv n))" by (simp add: assms)
  note rb = run_before[OF this]
  have "ENew (portPath cfg) None \<in> set pre" if "1 \<le> phase ev \<and> phase ev \<le> 4"
    using rb that by (intro earlier) auto
  moreover have "\<exists>j. ERecv j None \<in> set pre" if "2 \<le> phase ev \<and> phase ev \<le> 4"
  proof -
    from rb that obtain j where "ERecv j None \<in> set (events (recordMetrics cfg drv n))" by blast
    then have "ERecv j None \<in> set pre" using that by (intro earlier) auto
    then show ?thesis by blast
  qed
  moreover have "EMakeActive None \<in> set pre" if "phase ev = 4"
    using rb that by (intro earlier) auto
  ultimately show ?thesis using before by blast
qed

theorem mode_order_witness:
  "events (recordMetrics (flags 5 False) usb_sensor (Suc 0)) =
     [ENew ''/dev/ttyUSB0'' None, EGo 0, ERecv 0 None, ECycle (Inr 5), EMakeActive None] @
     EGet (Inr \<lparr>PM25 = 12, PM10 = 20\<rparr>) # [EGaugeSet ''pm2.5'' 12, EGaugeSet ''pm10'' 20] \<and>
   ENew ''/dev/ttyUSB0'' None \<in> set [ENew ''/dev/ttyUSB0'' None, EGo 0, ERecv 0 None,
      ECycle (Inr 5), EMakeActive None :: (unit, int) event] \<and>
   ERecv 0 None \<in> set [ENew ''/dev/ttyUSB0'' None, EGo 0, ERecv 0 None, ECycle (Inr 5),
      EMakeActive None :: (unit, int) event] \<and>
   EMakeActive None \<in> set [ENew ''/dev/ttyUSB0'' None, EGo 0, ERecv 0 None, ECycle (Inr 5),
      EMakeActive None :: (unit, int) event]"
  using mode_order [of "flags 5 False" usb_sensor "Suc 0"
      "[ENew ''/dev/ttyUSB0'' None, EGo 0, ERecv 0 None, ECycle (Inr 5), EMakeActive None]"
      "EGet (Inr \<lparr>PM25 = 12, PM10 = 20\<rparr>)" "[EGaugeSet ''pm2.5'' 12, EGaugeSet ''pm10'' 20]"]
  by (simp add: usb_sensor_one)

end
